theory Spec2Isabelle
  imports Complex_Main "HOL-Library.Log_Nat"
begin

section \<open>Python values used by app.py\<close>

text \<open>
  The script \<^verbatim>\<open>app.py\<close> is a Streamlit page: every user interaction runs it once from top
  to bottom. Integers are Python's unbounded \<open>int\<close>; a Python \<open>str\<close> is kept as the list
  of its UTF-8 bytes, so a label with an emoji is written with \<open>CHR\<close> codes; a \<open>dict\<close>
  is an association list in insertion order with unique keys.
\<close>

text \<open>The exceptions that can occur: the two arithmetic errors of \<open>int\<close> and \<open>float\<close>,
  the \<open>AttributeError\<close> of a call on \<open>None\<close>, and whatever the text-generation client
  raises (a transport, authentication or quota failure). All of them derive from
  \<open>Exception\<close>.\<close>

datatype service_failure = Transport | Authentication | Quota

datatype py_exception =
    OverflowError string
  | ZeroDivisionError string
  | AttributeError string
  | ServiceError service_failure string

text \<open>\<open>str(e)\<close> of an exception is its message.\<close>

fun str_exc :: "py_exception \<Rightarrow> string" where
  "str_exc (OverflowError m) = m"
| "str_exc (ZeroDivisionError m) = m"
| "str_exc (AttributeError m) = m"
| "str_exc (ServiceError k m) = m"

type_synonym ('k, 'v) py_dict = "('k \<times> 'v) list"

text \<open>\<open>d[k] = v\<close>: an existing key keeps its place and gets the new value, a new key goes
  to the end.\<close>

fun dict_setitem :: "('k, 'v) py_dict \<Rightarrow> 'k \<Rightarrow> 'v \<Rightarrow> ('k, 'v) py_dict" where
  "dict_setitem [] k v = [(k, v)]"
| "dict_setitem ((k', v') # d) k v =
     (if k' = k then (k, v) # d else (k', v') # dict_setitem d k v)"

definition dict_keys :: "('k, 'v) py_dict \<Rightarrow> 'k list" where
  "dict_keys d = map fst d"

definition dict_values :: "('k, 'v) py_dict \<Rightarrow> 'v list" where
  "dict_values d = map snd d"

text \<open>The builtin \<open>sum\<close> on integers: start at 0 and add from left to right.\<close>

definition py_sum :: "int list \<Rightarrow> int" where
  "py_sum xs = foldl (+) 0 xs"

section \<open>Mode and categories (lines 46 to 84)\<close>

datatype mode = Monthly_Budgeting | Semester_Budgeting

fun mode_str :: "mode \<Rightarrow> string" where
  "mode_str Monthly_Budgeting = ''Monthly Budgeting''"
| "mode_str Semester_Budgeting = ''Semester Budgeting''"

definition rupee :: string where
  "rupee = [CHR 0xE2, CHR 0x82, CHR 0xB9]"

definition budget_label :: "mode \<Rightarrow> string" where
  "budget_label m = (case m of
      Monthly_Budgeting \<Rightarrow>
        [CHR 0xF0, CHR 0x9F, CHR 0x92, CHR 0xB8] @ '' Monthly Budget ('' @ rupee @ ''):''
    | Semester_Budgeting \<Rightarrow>
        [CHR 0xF0, CHR 0x9F, CHR 0x92, CHR 0xB8] @ '' Semester Budget ('' @ rupee @ ''):'')"

definition goal_label :: "mode \<Rightarrow> string" where
  "goal_label m = (case m of
      Monthly_Budgeting \<Rightarrow>
        [CHR 0xF0, CHR 0x9F, CHR 0x8E, CHR 0xAF] @ '' Monthly Savings Goal ('' @ rupee @ ''):''
    | Semester_Budgeting \<Rightarrow>
        [CHR 0xF0, CHR 0x9F, CHR 0x8E, CHR 0xAF] @ '' Semester Savings Goal ('' @ rupee @ ''):'')"

definition categories :: "mode \<Rightarrow> (string, string) py_dict" where
  "categories m = (case m of
      Monthly_Budgeting \<Rightarrow>
       [([CHR 0xF0, CHR 0x9F, CHR 0x8D, CHR 0x94] @ '' Food'', ''Daily meals, snacks, canteen''),
        ([CHR 0xF0, CHR 0x9F, CHR 0x9A, CHR 0x8C] @ '' Transport'', ''Bus, train, Uber, bike fuel''),
        ([CHR 0xF0, CHR 0x9F, CHR 0x8F, CHR 0xA0] @ '' Rent/Hostel'', ''Hostel fee or PG rent''),
        ([CHR 0xE2, CHR 0x9C, CHR 0x8F, CHR 0xEF, CHR 0xB8, CHR 0x8F] @ '' Study Materials'',
           ''Books, stationery, software''),
        ([CHR 0xF0, CHR 0x9F, CHR 0x93, CHR 0xB1] @ '' Internet/Phone'', ''Mobile data, WiFi, recharge''),
        ([CHR 0xF0, CHR 0x9F, CHR 0x8E, CHR 0xAC] @ '' Entertainment & Outings'',
           ''Movies, hangouts, trips''),
        ([CHR 0xF0, CHR 0x9F, CHR 0x8F, CHR 0xA5] @ '' Health & Fitness'',
           ''Medicines, doctor visits, gym''),
        ([CHR 0xF0, CHR 0x9F, CHR 0x8E, CHR 0xAD] @ '' Clubs/Events'', ''Societies, fests, competitions''),
        ([CHR 0xF0, CHR 0x9F, CHR 0x93, CHR 0xA6] @ '' Others'', ''Miscellaneous expenses'')]
    | Semester_Budgeting \<Rightarrow>
       [([CHR 0xF0, CHR 0x9F, CHR 0x93, CHR 0x9A] @ '' Tuition Fees'', ''College or semester fees''),
        ([CHR 0xF0, CHR 0x9F, CHR 0x8F, CHR 0xA0] @ '' Hostel/PG Rent'',
           ''Semester-long rent or hostel fee''),
        ([CHR 0xE2, CHR 0x9C, CHR 0x8F, CHR 0xEF, CHR 0xB8, CHR 0x8F] @ '' Study Materials'',
           ''Books, notes, stationery, software''),
        ([CHR 0xF0, CHR 0x9F, CHR 0x9A, CHR 0x8C] @ '' Transport'', ''Travel home, trips, daily commute''),
        ([CHR 0xF0, CHR 0x9F, CHR 0x8E, CHR 0xAD] @ '' College Events/Fests'',
           ''Cultural fest, tech fest, competitions''),
        ([CHR 0xF0, CHR 0x9F, CHR 0x8E, CHR 0x92] @ '' Trips & Excursions'',
           ''Industrial visit, college trip''),
        ([CHR 0xF0, CHR 0x9F, CHR 0x8F, CHR 0xA5] @ '' Health & Insurance'',
           ''Medicines, hospital, insurance''),
        ([CHR 0xF0, CHR 0x9F, CHR 0x93, CHR 0xB1] @ '' Internet & Utilities'',
           ''WiFi, mobile recharge, electricity''),
        ([CHR 0xF0, CHR 0x9F, CHR 0x8D, CHR 0x94] @ '' Food & Daily Expenses'',
           ''Canteen, groceries, mess''),
        ([CHR 0xF0, CHR 0x9F, CHR 0x93, CHR 0xA6] @ '' Others'', ''Miscellaneous semester expenses'')])"

section \<open>Decimal text\<close>

text \<open>\<open>str\<close> of an integer, zero padding, and the format \<open>.2f\<close> of a float: the exact
  value of the double is rounded to two decimals, a tie going to the even digit.\<close>

definition digit_char :: "nat \<Rightarrow> char" where
  "digit_char d = ''0123456789'' ! d"

fun str_nat :: "nat \<Rightarrow> string" where
  "str_nat n = (if n < 10 then [digit_char n] else str_nat (n div 10) @ [digit_char (n mod 10)])"

declare str_nat.simps [simp del]

definition str_int :: "int \<Rightarrow> string" where
  "str_int i = (if i < 0 then CHR ''-'' # str_nat (nat (- i)) else str_nat (nat i))"

definition zfill :: "nat \<Rightarrow> string \<Rightarrow> string" where
  "zfill w s = replicate (w - length s) CHR ''0'' @ s"

definition round_half_even :: "rat \<Rightarrow> int" where
  "round_half_even x = (let n = \<lfloor>x\<rfloor>; r = x - of_int n in
      if r < 1 / 2 then n else if 1 / 2 < r then n + 1 else if even n then n else n + 1)"

definition format_2f :: "rat \<Rightarrow> string" where
  "format_2f y = (let c = nat (round_half_even (\<bar>y\<bar> * 100)) in
      (if y < 0 then ''-'' else []) @ str_nat (c div 100) @ ''.'' @ zfill 2 (str_nat (c mod 100)))"

section \<open>Python floats\<close>

text \<open>
  A finite \<open>float\<close> is an IEEE 754 binary64 number, kept here as the rational it denotes.
  Every operation computes the exact result and rounds it to the nearest double, a tie
  going to the even significand: \<open>ilog2 x\<close> is the binary exponent of a positive \<open>x\<close>,
  \<open>ulp x\<close> the distance between the doubles around \<open>x\<close> (53 significant bits, and
  \<open>2 powi (- 1074)\<close> in the subnormal range), \<open>fl x\<close> the rounded value. Results of
  magnitude \<open>2 ^ 1024\<close> and more are not doubles; the two conversions below raise
  \<open>OverflowError\<close> for them.
\<close>

definition ilog2 :: "rat \<Rightarrow> int" where
  "ilog2 x = (case quotient_of x of (p, q) \<Rightarrow>
      let d = bitlen p - bitlen q in if 2 powi d \<le> x then d else d - 1)"

definition ulp :: "rat \<Rightarrow> rat" where
  "ulp x = 2 powi (max (ilog2 \<bar>x\<bar> - 52) (- 1074))"

definition fl :: "rat \<Rightarrow> rat" where
  "fl x = (if x = 0 then 0 else of_int (round_half_even (x / ulp x)) * ulp x)"

text \<open>The conversion of an \<open>int\<close> operand to \<open>float\<close>, as in \<open>budget * 0.2\<close>.\<close>

definition float_of_int :: "int \<Rightarrow> py_exception + rat" where
  "float_of_int n = (let y = fl (of_int n) in
      if 2 ^ 1024 \<le> \<bar>y\<bar> then Inl (OverflowError ''int too large to convert to float'')
      else Inr y)"

text \<open>The largest double is \<open>2 ^ 1024 - 2 ^ 971\<close>; the values from
  \<open>2 ^ 1024 - 2 ^ 970\<close> on, half a step above it, are the ones that round to \<open>2 ^ 1024\<close>.\<close>

definition overflow_limit :: int where
  "overflow_limit = 2 ^ 1024 - 2 ^ 970"

text \<open>True division \<open>a / b\<close> of two \<open>int\<close>s: the correctly rounded quotient.\<close>

definition int_truediv :: "int \<Rightarrow> int \<Rightarrow> py_exception + rat" where
  "int_truediv a b =
     (if b = 0 then Inl (ZeroDivisionError ''division by zero'')
      else let y = fl (of_int a / of_int b) in
        if 2 ^ 1024 \<le> \<bar>y\<bar>
        then Inl (OverflowError ''integer division result too large for a float'')
        else Inr y)"

text \<open>The literal \<open>0.2\<close> is the double nearest to one fifth.\<close>

definition float_0_2 :: rat where
  "float_0_2 = 3602879701896397 / 2 ^ 54"

text \<open>\<open>n * 0.2\<close> for an \<open>int\<close> \<open>n\<close>: \<open>n\<close> is converted, then the product of the two doubles
  is rounded. The product is smaller in magnitude than the converted \<open>n\<close>, so it is
  finite.\<close>

definition int_mul_0_2 :: "int \<Rightarrow> py_exception + rat" where
  "int_mul_0_2 n = (case float_of_int n of Inl e \<Rightarrow> Inl e | Inr x \<Rightarrow> Inr (fl (x * float_0_2)))"

text \<open>\<open>r < y\<close> for an \<open>int\<close> \<open>r\<close> and a \<open>float\<close> \<open>y\<close> compares the two exact values.\<close>

definition int_lt_float :: "int \<Rightarrow> rat \<Rightarrow> bool" where
  "int_lt_float r y \<longleftrightarrow> of_int r < y"

section \<open>What the page reads (lines 46 to 94, 156, 178)\<close>

text \<open>
  One run of the script sees the widgets' current state: the option chosen in
  \<open>st.radio\<close>, the number each \<open>st.number_input\<close> returns and whether each of the two
  buttons was pressed. The widgets are Streamlit's, not part of the script:
  \<open>number_input w key min_value step\<close> is the \<open>int\<close> that the number input identified by
  \<open>key\<close> (its \<open>key\<close> argument when it has one, its label otherwise) returns in this run
  when it is called with the integers \<open>min_value\<close> and \<open>step\<close>. Nothing is assumed about
  it here; what a theorem needs of the widget is a hypothesis of that theorem.
\<close>

record widgets =
  radio :: mode
  number_input :: "string \<Rightarrow> int \<Rightarrow> int \<Rightarrow> int"
  save_button :: bool
  tips_button :: bool

text \<open>Lines 53, 54, 70 and 71: \<open>min_value=0\<close>, and \<open>step=500\<close> in Monthly mode,
  \<open>step=1000\<close> in Semester mode.\<close>

fun budget_step :: "mode \<Rightarrow> int" where
  "budget_step Monthly_Budgeting = 500"
| "budget_step Semester_Budgeting = 1000"

definition budget :: "widgets \<Rightarrow> int" where
  "budget w = number_input w (budget_label (radio w)) 0 (budget_step (radio w))"

definition goal :: "widgets \<Rightarrow> int" where
  "goal w = number_input w (goal_label (radio w)) 0 (budget_step (radio w))"

text \<open>The loop of lines 90 to 94, over the items of \<open>categories\<close>: the amount of category
  \<open>cat\<close> is read from the number input with key \<open>cat + mode\<close>, \<open>min_value=0\<close> and
  \<open>step=500\<close>.\<close>

fun read_expenses ::
  "widgets \<Rightarrow> (string \<times> string) list \<Rightarrow> (string, int) py_dict \<Rightarrow> (string, int) py_dict" where
  "read_expenses w [] expenses = expenses"
| "read_expenses w ((cat, desc) # cs) expenses =
     read_expenses w cs
       (dict_setitem expenses cat (number_input w (cat @ mode_str (radio w)) 0 500))"

definition expenses :: "widgets \<Rightarrow> (string, int) py_dict" where
  "expenses w = read_expenses w (categories (radio w)) []"

section \<open>The calculation (lines 96 and 97)\<close>

definition total_expenses :: "(string, int) py_dict \<Rightarrow> int" where
  "total_expenses es = py_sum (dict_values es)"

definition remaining :: "int \<Rightarrow> int \<Rightarrow> int" where
  "remaining b t = b - t"

section \<open>What the page shows\<close>

text \<open>
  A cell of a pandas \<open>DataFrame\<close> holds a date, a string or an integer; a frame is its
  column names and its rows. The page is the list of the elements the script has
  written so far, in order. The input widgets themselves are not listed.
\<close>

record date =
  year :: nat
  month :: nat
  day :: nat

datatype cell = Date_cell date | Str_cell string | Int_cell int

record dataframe =
  columns :: "string list"
  rows :: "cell list list"

datatype element =
    St_title string
  | St_caption string
  | St_subheader string
  | St_metric string string
  | St_info string
  | St_error string
  | St_warning string
  | St_success string
  | St_pyplot_pie "int list" "string list"
  | St_bar_chart dataframe
  | St_write dataframe
  | St_download_button string string string string
  | St_markdown string

section \<open>Budget summary, insight and warning (lines 102 to 127)\<close>

definition budget_summary :: "int \<Rightarrow> int \<Rightarrow> int \<Rightarrow> element list" where
  "budget_summary b t r =
     [St_subheader ([CHR 0xF0, CHR 0x9F, CHR 0x93, CHR 0x8A] @ '' Budget Summary''),
      St_metric ([CHR 0xF0, CHR 0x9F, CHR 0x92, CHR 0xB8] @ '' Budget'') (rupee @ str_int b),
      St_metric ([CHR 0xF0, CHR 0x9F, CHR 0x93, CHR 0x89] @ '' Expenses'') (rupee @ str_int t),
      St_metric ([CHR 0xE2, CHR 0x9C, CHR 0x85] @ '' Remaining'') (rupee @ str_int r)]"

definition daily_budget :: "int \<Rightarrow> py_exception + rat" where
  "daily_budget b = int_truediv b 30"

definition monthly_equiv :: "int \<Rightarrow> py_exception + rat" where
  "monthly_equiv b = (let months = 6 in int_truediv b months)"

text \<open>The two \<open>st.info\<close> lines, with the figure formatted by \<open>.2f\<close>.\<close>

definition daily_budget_info :: "rat \<Rightarrow> element" where
  "daily_budget_info d =
     St_info ([CHR 0xF0, CHR 0x9F, CHR 0x93, CHR 0x86] @ '' Your daily spending allowance: ''
       @ rupee @ format_2f d)"

definition monthly_equiv_info :: "rat \<Rightarrow> element" where
  "monthly_equiv_info d =
     St_info ([CHR 0xF0, CHR 0x9F, CHR 0x93, CHR 0x86] @ '' Equivalent Monthly Budget: ''
       @ rupee @ format_2f d)"

text \<open>Lines 111 to 117: the figure is computed and shown only under the guard
  \<open>budget > 0\<close>; an exception of the division leaves the script.\<close>

definition mode_insights :: "mode \<Rightarrow> int \<Rightarrow> py_exception + element list" where
  "mode_insights m b =
     (if m = Monthly_Budgeting \<and> b > 0 then
        (case daily_budget b of Inl e \<Rightarrow> Inl e | Inr d \<Rightarrow> Inr [daily_budget_info d])
      else if m = Semester_Budgeting \<and> b > 0 then
        (case monthly_equiv b of Inl e \<Rightarrow> Inl e | Inr d \<Rightarrow> Inr [monthly_equiv_info d])
      else Inr [])"

text \<open>Lines 122 to 127. The three outcomes of the \<open>if\<close>/\<open>elif\<close>/\<open>else\<close> are named after
  the specification's status values; \<open>budget * 0.2\<close> is evaluated only when the first
  test has failed.\<close>

datatype status = Exceeded | NearLimit | OnTrack

definition budget_status :: "int \<Rightarrow> int \<Rightarrow> py_exception + status" where
  "budget_status r b =
     (if r < 0 then Inr Exceeded
      else (case int_mul_0_2 b of
              Inl e \<Rightarrow> Inl e
            | Inr limit \<Rightarrow> if int_lt_float r limit then Inr NearLimit else Inr OnTrack))"

fun banner :: "status \<Rightarrow> element" where
  "banner Exceeded =
     St_error ([CHR 0xE2, CHR 0x9A, CHR 0xA0, CHR 0xEF, CHR 0xB8, CHR 0x8F]
       @ '' You exceeded your budget!'')"
| "banner NearLimit =
     St_warning ([CHR 0xE2, CHR 0x9A, CHR 0xA0, CHR 0xEF, CHR 0xB8, CHR 0x8F]
       @ '' You are close to exceeding your budget.'')"
| "banner OnTrack =
     St_success ([CHR 0xE2, CHR 0x9C, CHR 0x85] @ '' You'' @ [CHR 0x27] @ ''re on track!'')"

definition warnings :: "int \<Rightarrow> int \<Rightarrow> py_exception + element list" where
  "warnings r b = (case budget_status r b of Inl e \<Rightarrow> Inl e | Inr s \<Rightarrow> Inr [banner s])"



section \<open>The two charts (lines 132 to 147)\<close>

definition visualization :: "(string, int) py_dict \<Rightarrow> int \<Rightarrow> element list" where
  "visualization es t =
     St_subheader ([CHR 0xF0, CHR 0x9F, CHR 0x93, CHR 0x88] @ '' Expense Distribution'')
     # (if t > 0 then [St_pyplot_pie (dict_values es) (dict_keys es)] else [])"

text \<open>The frame has one row per category and the row \<open>["Remaining", remaining]\<close> is
  written at the index \<open>len(df)\<close>, which is a new last row.\<close>

definition bar_chart_df :: "(string, int) py_dict \<Rightarrow> int \<Rightarrow> dataframe" where
  "bar_chart_df es r =
     \<lparr>columns = [''Category'', ''Expenses''],
      rows = map (\<lambda>(k, v). [Str_cell k, Int_cell v]) es @ [[Str_cell ''Remaining'', Int_cell r]]\<rparr>"

definition bar_chart :: "(string, int) py_dict \<Rightarrow> int \<Rightarrow> element list" where
  "bar_chart es r =
     [St_subheader ([CHR 0xF0, CHR 0x9F, CHR 0x93, CHR 0x8A] @ '' Budget vs Expenses''),
      St_bar_chart (bar_chart_df es r)]"

section \<open>Expense log and export (lines 152 to 172)\<close>

record history_record =
  Date :: date
  Mode :: string
  Budget :: int
  Expenses :: int
  Remaining :: int
  Goal :: int

text \<open>\<open>st.session_state\<close> lives as long as the session. Only its key \<open>"history"\<close> is
  used: it is absent in a new session, and lines 153 and 154 then store the empty
  list.\<close>

type_synonym session_state = "history_record list option"

definition init_history :: "session_state \<Rightarrow> history_record list" where
  "init_history ss = (case ss of None \<Rightarrow> [] | Some h \<Rightarrow> h)"

text \<open>Lines 156 to 164: a press of the save button appends one dictionary with the
  values of this run.\<close>

definition save_budget_data ::
  "bool \<Rightarrow> date \<Rightarrow> mode \<Rightarrow> int \<Rightarrow> int \<Rightarrow> int \<Rightarrow> int \<Rightarrow> history_record list
     \<Rightarrow> history_record list" where
  "save_budget_data pressed d m b t r g h =
     (if pressed
      then h @ [\<lparr>Date = d, Mode = mode_str m, Budget = b, Expenses = t, Remaining = r, Goal = g\<rparr>]
      else h)"

text \<open>\<open>pd.DataFrame\<close> of a list of dictionaries with the same keys: the columns are the
  keys in their order, one row per dictionary.\<close>

definition history_df :: "history_record list \<Rightarrow> dataframe" where
  "history_df h =
     \<lparr>columns = [''Date'', ''Mode'', ''Budget'', ''Expenses'', ''Remaining'', ''Goal''],
      rows = map (\<lambda>x. [Date_cell (Date x), Str_cell (Mode x), Int_cell (Budget x),
                        Int_cell (Expenses x), Int_cell (Remaining x), Int_cell (Goal x)]) h\<rparr>"

definition str_date :: "date \<Rightarrow> string" where
  "str_date d = zfill 4 (str_nat (year d)) @ ''-'' @ zfill 2 (str_nat (month d))
     @ ''-'' @ zfill 2 (str_nat (day d))"

fun str_cell :: "cell \<Rightarrow> string" where
  "str_cell (Date_cell d) = str_date d"
| "str_cell (Str_cell s) = s"
| "str_cell (Int_cell i) = str_int i"

fun join :: "string \<Rightarrow> string list \<Rightarrow> string" where
  "join sep [] = []"
| "join sep [x] = x"
| "join sep (x # y # ys) = x @ sep @ join sep (y # ys)"

text \<open>\<open>to_csv(index=False)\<close> writes the header and then the rows, the fields of a line
  separated by commas and every line ended by the platform's line separator
  \<open>os.linesep\<close>. A field is put in double quotes, its own quotes doubled, only when it
  contains a comma, a double quote or a character of the line separator.\<close>

definition csv_field :: "string \<Rightarrow> string \<Rightarrow> string" where
  "csv_field linesep s =
     (if \<exists>c \<in> set s. c = CHR '','' \<or> c = CHR 0x22 \<or> c \<in> set linesep
      then [CHR 0x22] @ concat (map (\<lambda>c. if c = CHR 0x22 then [c, c] else [c]) s) @ [CHR 0x22]
      else s)"

definition csv_line :: "string \<Rightarrow> string list \<Rightarrow> string" where
  "csv_line linesep line = join '','' (map (csv_field linesep) line) @ linesep"

definition to_csv :: "string \<Rightarrow> dataframe \<Rightarrow> string" where
  "to_csv linesep df =
     concat (map (csv_line linesep) (columns df # map (map str_cell) (rows df)))"

text \<open>A \<open>str\<close> is kept as its UTF-8 bytes, so \<open>encode("utf-8")\<close> returns the same list, now
  read as \<open>bytes\<close>.\<close>

definition encode_utf8 :: "string \<Rightarrow> string" where
  "encode_utf8 s = s"

text \<open>Lines 166 to 172. The arguments of \<open>St_download_button\<close> are the label, the data,
  the file name and the MIME type.\<close>

definition expense_log_subheader :: element where
  "expense_log_subheader =
     St_subheader ([CHR 0xF0, CHR 0x9F, CHR 0x97, CHR 0x82] @ '' Expense Log'')"

definition download_label :: string where
  "download_label =
     [CHR 0xE2, CHR 0xAC, CHR 0x87, CHR 0xEF, CHR 0xB8, CHR 0x8F]
       @ '' Download Expense History (CSV)''"

definition expense_log :: "string \<Rightarrow> history_record list \<Rightarrow> element list" where
  "expense_log linesep h =
     expense_log_subheader
     # (if length h > 0
        then [St_write (history_df h),
              St_download_button download_label
                (encode_utf8 (to_csv linesep (history_df h))) ''expenses.csv'' ''text/csv'']
        else [])"

section \<open>Advice (lines 11 to 33 and 177 to 184)\<close>

text \<open>
  The prompt is an f-string: fixed text around \<open>str\<close> of the five arguments of
  \<open>get_ai_tips\<close>. It is kept as the record of these five values. What lies outside the
  script is the environment of a run: the secrets, the text-generation service (for an
  API key, a model name and a prompt it returns the text of the response or raises), the
  current date and the line separator of the platform.
\<close>

record prompt =
  prompt_mode :: string
  prompt_expenses :: "(string, int) py_dict"
  prompt_budget :: int
  prompt_remaining :: int
  prompt_goal :: int

record environment =
  secrets :: "string \<rightharpoonup> string"
  generate_content :: "string \<Rightarrow> string \<Rightarrow> prompt \<Rightarrow> py_exception + string"
  today :: date
  os_linesep :: string

definition model :: "environment \<Rightarrow> (prompt \<Rightarrow> py_exception + string) option" where
  "model env =
     (case secrets env ''GEMINI_API_KEY'' of
        Some api_key \<Rightarrow> Some (generate_content env api_key ''gemini-1.5-flash'')
      | None \<Rightarrow> None)"

text \<open>\<open>get_ai_tips\<close> returns the text or raises; the second component lists the requests
  sent to the service. With \<open>model = None\<close> the attribute lookup
  \<open>model.generate_content\<close> raises before anything is sent.\<close>

definition none_has_no_generate_content :: py_exception where
  "none_has_no_generate_content =
     AttributeError ([CHR 0x27] @ ''NoneType'' @ [CHR 0x27] @ '' object has no attribute ''
       @ [CHR 0x27] @ ''generate_content'' @ [CHR 0x27])"

definition get_ai_tips ::
  "environment \<Rightarrow> (string, int) py_dict \<Rightarrow> int \<Rightarrow> int \<Rightarrow> int \<Rightarrow> mode
     \<Rightarrow> (py_exception + string) \<times> prompt list" where
  "get_ai_tips env es b r g m =
     (let p = \<lparr>prompt_mode = mode_str m, prompt_expenses = es, prompt_budget = b,
                prompt_remaining = r, prompt_goal = g\<rparr>
      in case model env of
           None \<Rightarrow> (Inl none_has_no_generate_content, [])
         | Some gm \<Rightarrow> (gm p, [p]))"

text \<open>Lines 177 to 184: \<open>except Exception\<close> catches every exception of the call, and the
  script goes on after the \<open>try\<close> statement.\<close>

definition ai_tips_subheader :: element where
  "ai_tips_subheader =
     St_subheader ([CHR 0xF0, CHR 0x9F, CHR 0xA4, CHR 0x96] @ '' AI-Powered Smart Tips'')"

definition unable_to_fetch :: element where
  "unable_to_fetch =
     St_warning ([CHR 0xE2, CHR 0x9A, CHR 0xA0, CHR 0xEF, CHR 0xB8, CHR 0x8F]
       @ '' Unable to fetch AI tips. Please check your Gemini API key.'')"

definition ai_tips ::
  "environment \<Rightarrow> bool \<Rightarrow> (string, int) py_dict \<Rightarrow> int \<Rightarrow> int \<Rightarrow> int \<Rightarrow> mode
     \<Rightarrow> element list \<times> prompt list" where
  "ai_tips env pressed es b r g m =
     (if pressed then
        (case get_ai_tips env es b r g m of
           (Inr tips, sent) \<Rightarrow> ([ai_tips_subheader, St_success tips], sent)
         | (Inl e, sent) \<Rightarrow>
             ([ai_tips_subheader, unable_to_fetch, St_error (str_exc e)], sent))
      else ([ai_tips_subheader], []))"

section \<open>One run of the script\<close>

definition page_top :: "element list" where
  "page_top =
     [St_title ([CHR 0xF0, CHR 0x9F, CHR 0x8E, CHR 0x93]
        @ '' Smart Budgeting App for College Students''),
      St_caption
        ''Plan monthly OR semester budgets, track expenses, visualize data, and get AI tips!'',
      St_subheader ([CHR 0xF0, CHR 0x9F, CHR 0x93, CHR 0x9D] @ '' Add Your Expenses'')]"

definition footer :: "element list" where
  "footer =
     [St_markdown ''---'',
      St_caption ([CHR 0xE2, CHR 0x9A, CHR 0xA1]
        @ '' Powered by **Google Gemini AI** + **Streamlit**''),
      St_caption ([CHR 0xF0, CHR 0x9F, CHR 0x91, CHR 0xA8, CHR 0xE2, CHR 0x80, CHR 0x8D,
                   CHR 0xF0, CHR 0x9F, CHR 0x92, CHR 0xBB] @ '' Developed by **Soham Dey**'')]"

text \<open>
  The result of a run: the page written, the exception that ended the run if one left
  the script, the session state afterwards and the requests sent to the service. An
  exception outside the \<open>try\<close> of line 179 ends the run where it is raised; only the two
  float computations can raise there.
\<close>

record run =
  page :: "element list"
  raised :: "py_exception option"
  session :: session_state
  requests :: "prompt list"

definition run_script :: "environment \<Rightarrow> widgets \<Rightarrow> session_state \<Rightarrow> run" where
  "run_script env w ss =
     (let m = radio w; b = budget w; g = goal w; es = expenses w;
          t = total_expenses es; r = remaining b t;
          top = page_top @ budget_summary b t r
      in case mode_insights m b of
           Inl e \<Rightarrow> \<lparr>page = top, raised = Some e, session = ss, requests = []\<rparr>
         | Inr insight \<Rightarrow>
             (case warnings r b of
                Inl e \<Rightarrow> \<lparr>page = top @ insight, raised = Some e, session = ss, requests = []\<rparr>
              | Inr warning \<Rightarrow>
                  (let h = save_budget_data (save_button w) (today env) m b t r g (init_history ss);
                       tips = ai_tips env (tips_button w) es b r g m
                   in \<lparr>page = top @ insight @ warning @ visualization es t @ bar_chart es r
                              @ expense_log (os_linesep env) h @ fst tips @ footer,
                        raised = None, session = Some h, requests = snd tips\<rparr>)))"

text \<open>A session is a sequence of runs, each with the widget state and the environment
  of its moment, starting from an empty session state.\<close>

fun run_session :: "(environment \<times> widgets) list \<Rightarrow> session_state \<Rightarrow> session_state" where
  "run_session [] ss = ss"
| "run_session ((env, w) # rs) ss = run_session rs (session (run_script env w ss))"

section \<open>Example inputs\<close>





section \<open>Rounding to the nearest double\<close>

lemma bitlen_powi_bounds:
  assumes "0 < p"
  shows "(2::rat) powi (bitlen p - 1) \<le> of_int p" and "of_int p < (2::rat) powi (bitlen p)"
proof -
  from assms have b: "1 \<le> bitlen p" by (simp add: bitlen_alt_def)
  from bitlen_bounds [OF assms]
  have l: "2 ^ nat (bitlen p - 1) \<le> p" and u: "p < 2 ^ nat (bitlen p)" by simp_all
  have "(of_int (2 ^ nat (bitlen p - 1)) :: rat) \<le> of_int p"
    using l by (simp only: of_int_le_iff)
  then show "(2::rat) powi (bitlen p - 1) \<le> of_int p"
    using b by (simp add: power_int_nonneg_exp)
  have "(of_int p :: rat) < of_int (2 ^ nat (bitlen p))"
    using u by (simp only: of_int_less_iff)
  then show "of_int p < (2::rat) powi (bitlen p)"
    using b by (simp add: power_int_nonneg_exp)
qed

lemma ilog2_bounds:
  assumes "0 < x"
  shows "2 powi (ilog2 x) \<le> x" and "x < 2 powi (ilog2 x + 1)"
proof -
  obtain p q where pq: "quotient_of x = (p, q)" by (cases "quotient_of x")
  then have q: "0 < q" and x: "x = of_int p / of_int q"
    by (simp_all add: quotient_of_denom_pos quotient_of_div)
  with assms have p: "0 < p" by (simp add: zero_less_divide_iff)
  define d where "d = bitlen p - bitlen q"
  have qr: "(0::rat) < of_int q" using q by simp
  have lo: "2 powi (d - 1) \<le> x"
  proof -
    have "(2::rat) powi (d - 1) * of_int q \<le> 2 powi (d - 1) * 2 powi (bitlen q)"
      using bitlen_powi_bounds(2) [OF q] by (intro mult_left_mono) simp_all
    also have "\<dots> = 2 powi (bitlen p - 1)"
      by (simp add: d_def flip: power_int_add)
    also have "\<dots> \<le> of_int p" by (rule bitlen_powi_bounds(1) [OF p])
    finally show ?thesis using qr by (simp add: x pos_le_divide_eq)
  qed
  have hi: "x < 2 powi (d + 1)"
  proof -
    have "(of_int p :: rat) < 2 powi (bitlen p)" by (rule bitlen_powi_bounds(2) [OF p])
    also have "\<dots> = 2 powi (d + 1) * 2 powi (bitlen q - 1)"
      by (simp add: d_def flip: power_int_add)
    also have "\<dots> \<le> 2 powi (d + 1) * of_int q"
      using bitlen_powi_bounds(1) [OF q] by (intro mult_left_mono) simp_all
    finally show ?thesis using qr by (simp add: x pos_divide_less_eq)
  qed
  have e: "ilog2 x = (if 2 powi d \<le> x then d else d - 1)"
    by (simp add: ilog2_def pq d_def Let_def)
  show "2 powi (ilog2 x) \<le> x" using lo by (simp add: e)
  show "x < 2 powi (ilog2 x + 1)" using hi by (auto simp: e not_le)
qed

lemma ilog2_less: "0 < x \<Longrightarrow> x < 2 powi k \<Longrightarrow> ilog2 x < k"
proof (rule ccontr)
  assume x: "0 < x" "x < 2 powi k" and "\<not> ilog2 x < k"
  then have "(2::rat) powi k \<le> 2 powi (ilog2 x)"
    by (intro power_int_increasing) simp_all
  with ilog2_bounds(1) [OF x(1)] x(2) show False by simp
qed

lemma ilog2_ge: "0 < x \<Longrightarrow> 2 powi k \<le> x \<Longrightarrow> k \<le> ilog2 x"
proof (rule ccontr)
  assume x: "0 < x" "2 powi k \<le> x" and "\<not> k \<le> ilog2 x"
  then have "(2::rat) powi (ilog2 x + 1) \<le> 2 powi k"
    by (intro power_int_increasing) simp_all
  with ilog2_bounds(2) [OF x(1)] x(2) show False by simp
qed

lemma round_half_even_le: "x \<le> of_int k \<Longrightarrow> round_half_even x \<le> k"
proof -
  assume a: "x \<le> of_int k"
  show ?thesis
  proof (cases "x = of_int k")
    case True
    then show ?thesis by (simp add: round_half_even_def)
  next
    case False
    with a have "x < of_int k" by simp
    then have "\<lfloor>x\<rfloor> < k" by (simp add: floor_less_iff)
    then show ?thesis by (simp add: round_half_even_def Let_def)
  qed
qed

lemma round_half_even_ge: "of_int k \<le> x \<Longrightarrow> k \<le> round_half_even x"
proof -
  assume "of_int k \<le> x"
  then have "k \<le> \<lfloor>x\<rfloor>" by (simp add: le_floor_iff)
  then show ?thesis by (simp add: round_half_even_def Let_def)
qed

lemma round_half_even_above_half:
  assumes "of_int k + 1 / 2 < x"
  shows "k + 1 \<le> round_half_even x"
proof -
  from assms have "of_int k \<le> x" by simp
  then have f: "k \<le> \<lfloor>x\<rfloor>" by (simp add: le_floor_iff)
  show ?thesis
  proof (cases "\<lfloor>x\<rfloor> = k")
    case True
    with assms have "1 / 2 < x - of_int \<lfloor>x\<rfloor>" by simp
    then show ?thesis using True by (simp add: round_half_even_def Let_def)
  next
    case False
    with f have "k + 1 \<le> \<lfloor>x\<rfloor>" by simp
    then show ?thesis by (simp add: round_half_even_def Let_def)
  qed
qed

lemma round_half_even_below_half:
  assumes "of_int k \<le> x" and "x < of_int k + 1 / 2"
  shows "round_half_even x = k"
proof -
  from assms have "\<lfloor>x\<rfloor> = k" by (simp add: floor_unique)
  with assms show ?thesis by (simp add: round_half_even_def Let_def)
qed

lemma round_half_even_error: "\<bar>of_int (round_half_even x) - x\<bar> \<le> 1 / 2"
proof -
  define n where "n = \<lfloor>x\<rfloor>"
  have b: "of_int n \<le> x" "x < of_int n + 1" unfolding n_def by linarith+
  have "round_half_even x = (if x - of_int n < 1 / 2 then n else if 1 / 2 < x - of_int n then n + 1
      else if even n then n else n + 1)"
    by (simp add: round_half_even_def Let_def n_def)
  with b show ?thesis by (auto simp: abs_if split: if_splits)
qed


lemma round_half_even_of_int: "round_half_even (of_int m) = m"
  by (simp add: round_half_even_def)

lemma ulp_pos: "0 < ulp x"
  by (simp add: ulp_def)

lemma ulp_normal:
  assumes "0 < x" and "- 1022 \<le> ilog2 x"
  shows "ulp x = 2 powi (ilog2 x - 52)"
proof -
  from assms(2) have "max (ilog2 x - 52) (- 1074) = ilog2 x - 52" by simp
  moreover from assms(1) have "\<bar>x\<bar> = x" by simp
  ultimately show ?thesis by (simp only: ulp_def)
qed

text \<open>Below \<open>2 ^ 53\<close> the grid of doubles around \<open>x\<close> contains the integers: \<open>1 / ulp x\<close> is
  a power of two.\<close>

lemma ulp_grid:
  assumes "0 < x" and "- 1022 \<le> ilog2 x" and "x < 2 powi k" and "k \<le> 53"
  obtains j where "ulp x = 1 / 2 ^ j" and "53 - nat k \<le> j"
proof -
  from assms(1,3) have e: "ilog2 x < k" by (rule ilog2_less)
  define j where "j = nat (52 - ilog2 x)"
  have "ulp x = 2 powi (- int j)"
    using e assms(4) by (simp add: ulp_normal [OF assms(1,2)] j_def)
  then have "ulp x = 1 / 2 ^ j"
    by (simp add: power_int_minus_divide)
  moreover have "53 - nat k \<le> j" using e assms(4) by (simp add: j_def)
  ultimately show ?thesis by (rule that)
qed

lemma fl_nonpos: "x \<le> 0 \<Longrightarrow> fl x \<le> 0"
proof -
  assume "x \<le> 0"
  then have "x / ulp x \<le> of_int 0"
    using ulp_pos [of x] by (simp add: divide_le_0_iff)
  then have "round_half_even (x / ulp x) \<le> 0" by (rule round_half_even_le)
  then have "of_int (round_half_even (x / ulp x)) * ulp x \<le> 0"
    using ulp_pos [of x] by (simp add: mult_le_0_iff)
  then show ?thesis by (simp add: fl_def)
qed

lemma fl_le_int:
  assumes "0 < x" and "- 1022 \<le> ilog2 x" and "x < 2 powi 53" and "x \<le> of_int k"
  shows "fl x \<le> of_int k"
proof -
  from assms(1-3) obtain j where u: "ulp x = 1 / 2 ^ j"
    by (rule ulp_grid) simp_all
  have "x / ulp x = x * 2 ^ j" by (simp add: u)
  also have "\<dots> \<le> of_int (k * 2 ^ j)" using assms(4) by simp
  finally have "round_half_even (x / ulp x) \<le> k * 2 ^ j" by (rule round_half_even_le)
  then have "(of_int (round_half_even (x / ulp x)) :: rat) \<le> of_int (k * 2 ^ j)"
    by (simp only: of_int_le_iff)
  then have "of_int (round_half_even (x / ulp x)) * ulp x \<le> of_int k"
    by (simp add: u pos_divide_le_eq)
  with assms(1) show ?thesis by (simp add: fl_def)
qed

lemma fl_gt_int:
  assumes "0 < x" and "- 1022 \<le> ilog2 x" and "x < 2 powi 51" and "of_int k + 1 / 5 \<le> x"
  shows "of_int k < fl x"
proof -
  from assms(1-3) obtain j where u: "ulp x = 1 / 2 ^ j" and j: "53 - nat 51 \<le> j"
    by (rule ulp_grid) simp_all
  from j have "2 \<le> j" by simp
  then have "(2::rat) ^ 2 \<le> 2 ^ j" by (intro power_increasing) simp_all
  then have four: "(4::rat) \<le> 2 ^ j" by simp
  have "of_int (k * 2 ^ j) + 1 / 2 < (of_int k + 1 / 5) * (2::rat) ^ j"
    using four by (simp add: algebra_simps)
  also have "\<dots> \<le> x * 2 ^ j" using assms(4) by (intro mult_right_mono) simp_all
  also have "\<dots> = x / ulp x" by (simp add: u)
  finally have "k * 2 ^ j + 1 \<le> round_half_even (x / ulp x)"
    by (rule round_half_even_above_half)
  then have "(of_int (k * 2 ^ j + 1) :: rat) \<le> of_int (round_half_even (x / ulp x))"
    by (simp only: of_int_le_iff)
  then have "of_int k + 1 / 2 ^ j \<le> of_int (round_half_even (x / ulp x)) * ulp x"
    by (simp add: u pos_le_divide_eq algebra_simps)
  moreover have "(0::rat) < 1 / 2 ^ j" by simp
  ultimately have "of_int k < of_int (round_half_even (x / ulp x)) * ulp x" by linarith
  with assms(1) show ?thesis by (simp add: fl_def)
qed

lemma fl_near_int:
  assumes "0 < x" and "- 1022 \<le> ilog2 x" and "x < 2 powi 53"
    and "of_int k \<le> x" and "x - of_int k < ulp x / 2"
  shows "fl x = of_int k"
proof -
  from assms(1-3) obtain j where u: "ulp x = 1 / 2 ^ j"
    by (rule ulp_grid) simp_all
  have xu: "x / ulp x = x * 2 ^ j" by (simp add: u)
  have lo: "of_int (k * 2 ^ j) \<le> x / ulp x" using assms(4) by (simp add: xu)
  have "(x - of_int k) * 2 ^ j < 1 / 2"
    using assms(5) by (simp add: u pos_less_divide_eq)
  then have hi: "x / ulp x < of_int (k * 2 ^ j) + 1 / 2"
    by (simp add: xu algebra_simps)
  from lo hi have "round_half_even (x / ulp x) = k * 2 ^ j"
    by (rule round_half_even_below_half)
  with assms(1) show ?thesis by (simp add: fl_def u)
qed

lemma fl_error:
  assumes "0 < x" and "- 1022 \<le> ilog2 x"
  shows "\<bar>fl x - x\<bar> \<le> x / 2 ^ 53"
proof -
  have up: "0 < ulp x" by (rule ulp_pos)
  have "\<bar>of_int (round_half_even (x / ulp x)) - x / ulp x\<bar> * ulp x \<le> 1 / 2 * ulp x"
    using up round_half_even_error [of "x / ulp x"] by (intro mult_right_mono) simp_all
  moreover have "\<bar>of_int (round_half_even (x / ulp x)) - x / ulp x\<bar> * ulp x
      = \<bar>of_int (round_half_even (x / ulp x)) * ulp x - x\<bar>"
  proof -
    have "\<bar>of_int (round_half_even (x / ulp x)) - x / ulp x\<bar> * ulp x
        = \<bar>of_int (round_half_even (x / ulp x)) - x / ulp x\<bar> * \<bar>ulp x\<bar>"
      using up by simp
    also have "\<dots> = \<bar>(of_int (round_half_even (x / ulp x)) - x / ulp x) * ulp x\<bar>"
      by (simp only: abs_mult)
    also have "(of_int (round_half_even (x / ulp x)) - x / ulp x) * ulp x
        = of_int (round_half_even (x / ulp x)) * ulp x - x"
      using up by (simp add: left_diff_distrib)
    finally show ?thesis .
  qed
  ultimately have "\<bar>fl x - x\<bar> \<le> ulp x / 2" using assms(1) by (simp add: fl_def)
  also have "ulp x / 2 = 2 powi (ilog2 x) / 2 ^ 53"
    by (simp add: ulp_normal [OF assms] power_int_diff)
  also have "\<dots> \<le> x / 2 ^ 53"
    using ilog2_bounds(1) [OF assms(1)] by (simp add: divide_right_mono)
  finally show ?thesis .
qed


lemma near_limit_pos:
  assumes "0 \<le> r" and "1 \<le> b" and "b < 2 ^ 53"
  shows "of_int r < fl (of_int b * float_0_2) \<longleftrightarrow> 5 * r < b"
proof -
  define x where "x = of_int b * float_0_2"
  have b1: "(1::rat) \<le> of_int b" using assms(2) by simp
  have "(of_int b :: rat) < of_int (2 ^ 53)" using assms(3) by (simp only: of_int_less_iff)
  then have b2: "(of_int b :: rat) < 2 ^ 53" by simp
  have x_eq: "x = of_int b * 3602879701896397 / 2 ^ 54"
    by (simp add: x_def float_0_2_def)
  have pos: "0 < x" using b1 by (simp add: x_eq)
  have "2 powi (- 3) \<le> x" using b1 by (simp add: x_eq)
  with pos have "- 3 \<le> ilog2 x" by (rule ilog2_ge)
  then have norm: "- 1022 \<le> ilog2 x" by simp
  have "x < 2 ^ 51" using b2 by (simp add: x_eq)
  then have lt51: "x < 2 powi 51" by simp
  then have lt53: "x < 2 powi 53" by simp
  show ?thesis unfolding x_def [symmetric]
  proof
    assume lhs: "of_int r < fl x"
    show "5 * r < b"
    proof (rule ccontr)
      assume "\<not> 5 * r < b"
      then have le: "b \<le> 5 * r" by simp
      have "fl x \<le> of_int r"
      proof (cases "b = 5 * r")
        case True
        then have xr: "x = of_int r + of_int r / 2 ^ 54" by (simp add: x_eq)
        have r0: "(0::rat) \<le> of_int r" using assms(1) by simp
        have ge: "of_int r \<le> x" using r0 by (simp add: xr)
        have "of_int r < (2::rat) powi (ilog2 x + 1)"
          using ge ilog2_bounds(2) [OF pos] by simp
        then have "of_int r * 2 powi (- 54) < (2::rat) powi (ilog2 x + 1) * 2 powi (- 54)"
          by (intro mult_strict_right_mono) simp_all
        also have "\<dots> = 2 powi ((ilog2 x + 1) + (- 54))"
          by (rule power_int_add [symmetric]) simp
        also have "(ilog2 x + 1) + (- 54) = (ilog2 x - 52) + (- 1)" by simp
        also have "(2::rat) powi ((ilog2 x - 52) + (- 1)) = 2 powi (ilog2 x - 52) * 2 powi (- 1)"
          by (rule power_int_add) simp
        finally have "of_int r / 2 ^ 54 < (2::rat) powi (ilog2 x - 52) / 2"
          by simp
        moreover have "x - of_int r = of_int r / 2 ^ 54" by (simp add: xr)
        moreover have "ulp x = 2 powi (ilog2 x - 52)" using pos norm by (rule ulp_normal)
        ultimately have "x - of_int r < ulp x / 2" by simp
        with pos norm lt53 ge have "fl x = of_int r" by (rule fl_near_int)
        then show ?thesis by simp
      next
        case False
        with le have "b + 1 \<le> 5 * r" by simp
        then have "(of_int (b + 1) :: rat) \<le> of_int (5 * r)" by (simp only: of_int_le_iff)
        then have "(of_int b :: rat) + 1 \<le> 5 * of_int r" by simp
        with b2 have "x \<le> of_int r" by (simp add: x_eq)
        with pos norm lt53 show ?thesis by (rule fl_le_int)
      qed
      with lhs show False by simp
    qed
  next
    assume "5 * r < b"
    then have "5 * r + 1 \<le> b" by simp
    then have "(of_int (5 * r + 1) :: rat) \<le> of_int b" by (simp only: of_int_le_iff)
    then have "5 * (of_int r :: rat) + 1 \<le> of_int b" by simp
    moreover have "(0::rat) \<le> of_int r" using assms(1) by simp
    ultimately have "of_int r + 1 / 5 \<le> x" by (simp add: x_eq)
    with pos norm lt51 show "of_int r < fl x" by (rule fl_gt_int)
  qed
qed

lemma near_limit_iff:
  assumes "0 \<le> r" and "b < 2 ^ 53"
  shows "of_int r < fl (of_int b * float_0_2) \<longleftrightarrow> 5 * r < b"
proof (cases "1 \<le> b")
  case True
  with assms show ?thesis by (simp add: near_limit_pos)
next
  case False
  then have "(of_int b :: rat) \<le> 0" by simp
  then have "of_int b * float_0_2 \<le> 0"
    by (simp add: float_0_2_def mult_le_0_iff)
  then have "fl (of_int b * float_0_2) \<le> 0" by (rule fl_nonpos)
  moreover have "(0::rat) \<le> of_int r" using assms(1) by simp
  ultimately show ?thesis using False assms(1) by simp
qed


lemma round_half_even_minus: "round_half_even (- x) = - round_half_even x"
proof (cases "x = of_int \<lfloor>x\<rfloor>")
  case True
  then obtain n where "x = of_int n" ..
  then have "- x = of_int (- n)" by simp
  then show ?thesis unfolding \<open>x = of_int n\<close>
    by (simp only: round_half_even_of_int flip: of_int_minus)
next
  case False
  define n where "n = \<lfloor>x\<rfloor>"
  have b: "of_int n < x" "x < of_int n + 1"
    using False unfolding n_def by linarith+
  then have "of_int (- n - 1) \<le> - x" "- x < of_int (- n - 1) + 1" by simp_all
  then have fm: "\<lfloor>- x\<rfloor> = - n - 1" by (rule floor_unique)
  have p: "round_half_even x = (if x - of_int n < 1 / 2 then n
      else if 1 / 2 < x - of_int n then n + 1 else if even n then n else n + 1)"
    by (simp add: round_half_even_def Let_def n_def)
  have m: "round_half_even (- x) = (if - x - of_int (- n - 1) < 1 / 2 then - n - 1
      else if 1 / 2 < - x - of_int (- n - 1) then - n - 1 + 1
      else if even (- n - 1) then - n - 1 else - n - 1 + 1)"
    by (simp only: round_half_even_def Let_def fm)
  show ?thesis unfolding p m by (auto split: if_splits)
qed

lemma ulp_minus: "ulp (- x) = ulp x"
  by (simp add: ulp_def)

lemma fl_minus: "fl (- x) = - fl x"
proof -
  have "- x / ulp x = - (x / ulp x)" by simp
  then show ?thesis
    by (simp add: fl_def ulp_minus round_half_even_minus)
qed

lemma fl_nonneg: "0 \<le> x \<Longrightarrow> 0 \<le> fl x"
  using fl_nonpos [of "- x"] by (simp add: fl_minus)

lemma fl_abs: "\<bar>fl x\<bar> = fl \<bar>x\<bar>"
proof (cases "0 \<le> x")
  case True
  then show ?thesis by (simp add: fl_nonneg)
next
  case False
  then have "x \<le> 0" by simp
  then have "fl x \<le> 0" by (rule fl_nonpos)
  with False show ?thesis by (simp add: fl_minus)
qed

lemma fl_pos_int_exact:
  assumes "0 < n" and "n < 2 ^ 53"
  shows "fl (of_int n) = of_int n"
proof -
  have pos: "(0::rat) < of_int n" using assms(1) by simp
  have "(1::rat) \<le> of_int n" using assms(1) by simp
  then have "(2::rat) powi 0 \<le> of_int n" by simp
  with pos have "0 \<le> ilog2 (of_int n)" by (rule ilog2_ge)
  then have norm: "- 1022 \<le> ilog2 (of_int n)" by simp
  have "(of_int n :: rat) < of_int (2 ^ 53)" using assms(2) by (simp only: of_int_less_iff)
  then have lt: "(of_int n :: rat) < 2 powi 53" by simp
  have le: "(of_int n :: rat) \<le> of_int n" by simp
  have "(of_int n :: rat) - of_int n < ulp (of_int n) / 2"
    using ulp_pos [of "of_int n"] by simp
  with pos norm lt le show ?thesis by (rule fl_near_int)
qed

lemma fl_int_exact:
  assumes "\<bar>n\<bar> < 2 ^ 53"
  shows "fl (of_int n) = of_int n"
proof -
  consider "n = 0" | "0 < n" | "n < 0" by linarith
  then show ?thesis
  proof cases
    case 1
    then show ?thesis by (simp add: fl_def)
  next
    case 2
    with assms show ?thesis by (simp add: fl_pos_int_exact)
  next
    case 3
    with assms have "fl (of_int (- n)) = of_int (- n)" by (intro fl_pos_int_exact) simp_all
    then show ?thesis by (simp add: fl_minus)
  qed
qed

section \<open>Properties of the total and of the remaining balance\<close>

lemma foldl_add_start: "foldl (+) (a::int) xs = a + sum_list xs"
  by (induction xs arbitrary: a) simp_all

lemma py_sum_sum_list: "py_sum xs = sum_list xs"
  by (simp add: py_sum_def foldl_add_start)

lemma distinct_sum_map_of:
  "distinct (map fst es) \<Longrightarrow>
     (\<Sum>k \<in> set (map fst es). the (map_of es k)) = sum_list (map snd (es :: ('k \<times> int) list))"
proof (induction es)
  case Nil
  then show ?case by simp
next
  case (Cons e es)
  obtain k v where e: "e = (k, v)" by (cases e)
  from Cons.prems e have notin: "k \<notin> fst ` set es" and d: "distinct (map fst es)"
    by simp_all
  have "(\<Sum>k' \<in> fst ` set es. the (map_of (e # es) k')) = (\<Sum>k' \<in> fst ` set es. the (map_of es k'))"
    using notin e by (intro sum.cong) auto
  with Cons.IH [OF d] notin e show ?case by simp
qed

text \<open>
  C2. The total is the sum of all values of the expense mapping: it is the list sum of
  the values in insertion order, for a mapping (unique keys) it is the sum over the keys
  of the value stored under each key, and the total of the empty mapping is 0.
\<close>

theorem total_expenses_is_sum:
  "total_expenses es = sum_list (dict_values es)
   \<and> (distinct (dict_keys es) \<longrightarrow>
        total_expenses es = (\<Sum>k \<in> set (dict_keys es). the (map_of es k)))
   \<and> total_expenses [] = 0"
proof -
  have "distinct (dict_keys es) \<Longrightarrow>
      total_expenses es = (\<Sum>k \<in> set (dict_keys es). the (map_of es k))"
    unfolding total_expenses_def py_sum_sum_list dict_values_def dict_keys_def
    by (rule distinct_sum_map_of [symmetric])
  then show ?thesis
    by (simp add: total_expenses_def py_sum_sum_list dict_values_def)
qed

theorem total_expenses_is_sum_witness:
  "distinct (dict_keys [(''a'', 2000::int), (''b'', 500), (''c'', 1500)])
   \<and> total_expenses [(''a'', 2000), (''b'', 500), (''c'', 1500)] = 4000"
  using total_expenses_is_sum [of "[(''a'', 2000), (''b'', 500), (''c'', 1500)]"]
  by (simp add: dict_keys_def dict_values_def)

text \<open>
  C3. The remaining balance is the budget minus the total, for all integers; when the
  total is larger than the budget the result is the negative integer \<open>b - t\<close>, an
  ordinary value of the result type.
\<close>

theorem remaining_is_difference:
  "remaining b t = b - t \<and> (b < t \<longrightarrow> remaining b t < 0)"
  by (simp add: remaining_def)

theorem remaining_is_difference_witness:
  "(50000::int) < 52000 \<and> remaining 50000 52000 = - 2000"
  using remaining_is_difference [of 50000 52000] by simp

section \<open>Overflow of the float range\<close>

lemma round_half_even_le_half:
  assumes "x < of_int k + 1 / 2"
  shows "round_half_even x \<le> k"
proof -
  define n where "n = \<lfloor>x\<rfloor>"
  have b: "of_int n \<le> x" "x < of_int n + 1" unfolding n_def by linarith+
  have r: "round_half_even x = (if x - of_int n < 1 / 2 then n
      else if 1 / 2 < x - of_int n then n + 1 else if even n then n else n + 1)"
    by (simp add: round_half_even_def Let_def n_def)
  from b(1) assms have "(of_int n :: rat) < of_int k + 1 / 2" by simp
  then have "(of_int (2 * n) :: rat) < of_int (2 * k + 1)" by simp
  then have "2 * n < 2 * k + 1" by (simp only: of_int_less_iff)
  then have nk: "n \<le> k" by simp
  show ?thesis
  proof (cases "n = k")
    case True
    with assms have "x - of_int n < 1 / 2" by simp
    with True show ?thesis by (simp add: r)
  next
    case False
    with nk have "n + 1 \<le> k" by simp
    then show ?thesis by (simp add: r)
  qed
qed

lemma round_half_even_ge_half:
  assumes "of_int k - 1 / 2 \<le> x" and "even k"
  shows "k \<le> round_half_even x"
proof -
  define n where "n = \<lfloor>x\<rfloor>"
  have b: "of_int n \<le> x" "x < of_int n + 1" unfolding n_def by linarith+
  have r: "round_half_even x = (if x - of_int n < 1 / 2 then n
      else if 1 / 2 < x - of_int n then n + 1 else if even n then n else n + 1)"
    by (simp add: round_half_even_def Let_def n_def)
  from b(2) assms(1) have "(of_int k :: rat) - 1 / 2 < of_int n + 1" by simp
  then have "(of_int (2 * k) :: rat) < of_int (2 * n + 3)" by simp
  then have "2 * k < 2 * n + 3" by (simp only: of_int_less_iff)
  then have kn: "k \<le> n + 1" by simp
  show ?thesis
  proof (cases "k \<le> n")
    case True
    then show ?thesis by (simp add: r)
  next
    case False
    with kn have k: "k = n + 1" by simp
    with assms(2) have odd: "odd n" by simp
    from assms(1) k have "1 / 2 \<le> x - of_int n" by simp
    with odd k show ?thesis by (simp add: r)
  qed
qed

lemma two_powi_split: "(2::rat) powi (a + b) = 2 powi a * 2 powi b"
  by (rule power_int_add) simp

lemma fl_normal:
  assumes "0 < x" and "- 1022 \<le> ilog2 x"
  shows "fl x = of_int (round_half_even (x / 2 powi (ilog2 x - 52))) * 2 powi (ilog2 x - 52)"
  using assms(1) by (simp add: fl_def ulp_normal [OF assms])

lemma fl_le_next_power:
  assumes "0 < x" and "- 1022 \<le> ilog2 x"
  shows "fl x \<le> 2 powi (ilog2 x + 1)"
proof -
  let ?u = "(2::rat) powi (ilog2 x - 52)"
  have u: "0 < ?u" by simp
  have e: "ilog2 x + 1 = 53 + (ilog2 x - 52)" by simp
  have split: "(2::rat) powi (ilog2 x + 1) = 2 powi 53 * ?u"
    by (subst e) (rule two_powi_split)
  have "x < 2 powi 53 * ?u" using ilog2_bounds(2) [OF assms(1)] by (simp only: split)
  then have "x / ?u < 2 powi 53" using u by (simp add: pos_divide_less_eq)
  then have "x / ?u \<le> of_int (2 ^ 53)" by simp
  then have "round_half_even (x / ?u) \<le> 2 ^ 53" by (rule round_half_even_le)
  then have "(of_int (round_half_even (x / ?u)) :: rat) \<le> of_int (2 ^ 53)"
    by (simp only: of_int_le_iff)
  then have "of_int (round_half_even (x / ?u)) * ?u \<le> of_int (2 ^ 53) * ?u"
    using u by (intro mult_right_mono) simp_all
  also have "\<dots> = 2 powi (ilog2 x + 1)" by (simp add: split)
  finally show ?thesis by (simp only: fl_normal [OF assms])
qed

lemma fl_ge_power:
  assumes "0 < x" and "- 1022 \<le> ilog2 x"
  shows "2 powi (ilog2 x) \<le> fl x"
proof -
  let ?u = "(2::rat) powi (ilog2 x - 52)"
  have u: "0 < ?u" by simp
  have e: "ilog2 x = 52 + (ilog2 x - 52)" by simp
  have split: "(2::rat) powi (ilog2 x) = 2 powi 52 * ?u"
    by (subst e) (rule two_powi_split)
  have "2 powi 52 * ?u \<le> x" using ilog2_bounds(1) [OF assms(1)] by (simp only: split)
  then have "2 powi 52 \<le> x / ?u" using u by (simp add: pos_le_divide_eq)
  then have "of_int (2 ^ 52) \<le> x / ?u" by simp
  then have "2 ^ 52 \<le> round_half_even (x / ?u)" by (rule round_half_even_ge)
  then have "(of_int (2 ^ 52) :: rat) \<le> of_int (round_half_even (x / ?u))"
    by (simp only: of_int_le_iff)
  then have "of_int (2 ^ 52) * ?u \<le> of_int (round_half_even (x / ?u)) * ?u"
    using u by (intro mult_right_mono) simp_all
  moreover have "of_int (2 ^ 52) * ?u = 2 powi (ilog2 x)" by (simp add: split)
  ultimately show ?thesis by (simp only: fl_normal [OF assms])
qed

lemma fl_overflow_iff:
  assumes "0 < x" and "- 1022 \<le> ilog2 x"
  shows "2 ^ 1024 \<le> fl x \<longleftrightarrow> of_int overflow_limit \<le> x"
proof -
  define U :: rat where "U = 2 powi 971"
  have U: "0 < U" by (simp add: U_def)
  have top: "(2::rat) ^ 1024 = of_int (2 ^ 53) * U" by (simp add: U_def)
  have lim: "(of_int overflow_limit :: rat) = (of_int (2 ^ 53) - 1 / 2) * U"
    by (simp add: U_def overflow_limit_def)
  have p1023: "(2::rat) powi 1023 < 2 ^ 1024" "(2::rat) powi 1023 < of_int overflow_limit"
    by (simp_all add: overflow_limit_def)
  have p1024: "(2::rat) powi 1024 = 2 ^ 1024" "(of_int overflow_limit :: rat) \<le> 2 ^ 1024"
    by (simp_all add: overflow_limit_def)
  consider "ilog2 x \<le> 1022" | "ilog2 x = 1023" | "1024 \<le> ilog2 x" by linarith
  then show ?thesis
  proof cases
    case 1
    then have "(2::rat) powi (ilog2 x + 1) \<le> 2 powi 1023"
      by (intro power_int_increasing) simp_all
    with fl_le_next_power [OF assms] ilog2_bounds(2) [OF assms(1)]
    have "fl x \<le> 2 powi 1023" "x < 2 powi 1023" by simp_all
    with p1023 have "fl x < 2 ^ 1024" "x < of_int overflow_limit" by simp_all
    then show ?thesis by simp
  next
    case 3
    then have "(2::rat) powi 1024 \<le> 2 powi (ilog2 x)"
      by (intro power_int_increasing) simp_all
    with fl_ge_power [OF assms] ilog2_bounds(1) [OF assms(1)]
    have "2 powi 1024 \<le> fl x" "2 powi 1024 \<le> x" by simp_all
    with p1024 have "2 ^ 1024 \<le> fl x" "of_int overflow_limit \<le> x" by simp_all
    then show ?thesis by simp
  next
    case 2
    then have "ilog2 x - 52 = 971" by simp
    then have f: "fl x = of_int (round_half_even (x / U)) * U"
      by (simp only: fl_normal [OF assms] U_def)
    show ?thesis
    proof
      assume "of_int overflow_limit \<le> x"
      then have "(of_int (2 ^ 53) - 1 / 2) * U \<le> x" by (simp only: lim)
      then have "of_int (2 ^ 53) - 1 / 2 \<le> x / U" using U by (simp only: pos_le_divide_eq)
      moreover have "even ((2::int) ^ 53)" by simp
      ultimately have "2 ^ 53 \<le> round_half_even (x / U)" by (rule round_half_even_ge_half)
      then have "(of_int (2 ^ 53) :: rat) \<le> of_int (round_half_even (x / U))"
        by (simp only: of_int_le_iff)
      then have "of_int (2 ^ 53) * U \<le> of_int (round_half_even (x / U)) * U"
        using U by (intro mult_right_mono) simp_all
      then show "2 ^ 1024 \<le> fl x" by (simp only: f top)
    next
      assume a: "2 ^ 1024 \<le> fl x"
      show "of_int overflow_limit \<le> x"
      proof (rule ccontr)
        assume "\<not> of_int overflow_limit \<le> x"
        then have "x < (of_int (2 ^ 53) - 1 / 2) * U" by (simp only: lim not_le)
        then have "x / U < of_int (2 ^ 53) - 1 / 2" using U by (simp only: pos_divide_less_eq)
        then have "x / U < of_int (2 ^ 53 - 1) + 1 / 2" by simp
        then have "round_half_even (x / U) \<le> 2 ^ 53 - 1" by (rule round_half_even_le_half)
        then have "(of_int (round_half_even (x / U)) :: rat) \<le> of_int (2 ^ 53 - 1)"
          by (simp only: of_int_le_iff)
        then have "of_int (round_half_even (x / U)) * U \<le> of_int (2 ^ 53 - 1) * U"
          using U by (intro mult_right_mono) simp_all
        also have "\<dots> < of_int (2 ^ 53) * U" using U by simp
        finally have "fl x < 2 ^ 1024" by (simp only: f top)
        with a show False by simp
      qed
    qed
  qed
qed

lemma float_of_int_cases:
  "float_of_int n =
     (if \<bar>n\<bar> < overflow_limit then Inr (fl (of_int n))
      else Inl (OverflowError ''int too large to convert to float''))"
proof (cases "n = 0")
  case True
  then show ?thesis by (simp add: float_of_int_def fl_def overflow_limit_def)
next
  case False
  define x :: rat where "x = \<bar>of_int n\<bar>"
  from False have "1 \<le> \<bar>n\<bar>" by simp
  then have "(1::rat) \<le> of_int \<bar>n\<bar>" by (simp only: of_int_1_le_iff)
  then have x1: "1 \<le> x" by (simp add: x_def)
  then have pos: "0 < x" by simp
  from x1 have "2 powi 0 \<le> x" by simp
  with pos have "0 \<le> ilog2 x" by (rule ilog2_ge)
  then have norm: "- 1022 \<le> ilog2 x" by simp
  have "2 ^ 1024 \<le> \<bar>fl (of_int n)\<bar> \<longleftrightarrow> 2 ^ 1024 \<le> fl x" by (simp add: fl_abs x_def)
  also have "\<dots> \<longleftrightarrow> of_int overflow_limit \<le> x" using pos norm by (rule fl_overflow_iff)
  also have "\<dots> \<longleftrightarrow> (of_int overflow_limit :: rat) \<le> of_int \<bar>n\<bar>" by (simp add: x_def)
  also have "\<dots> \<longleftrightarrow> overflow_limit \<le> \<bar>n\<bar>" by (simp only: of_int_le_iff)
  finally show ?thesis by (simp add: float_of_int_def Let_def not_less)
qed

section \<open>The status of the budget\<close>

lemma budget_status_cases:
  "budget_status r b =
     (if r < 0 then Inr Exceeded
      else if overflow_limit \<le> \<bar>b\<bar>
        then Inl (OverflowError ''int too large to convert to float'')
      else Inr (if of_int r < fl (fl (of_int b) * float_0_2) then NearLimit else OnTrack))"
  by (simp add: budget_status_def int_mul_0_2_def float_of_int_cases int_lt_float_def not_less)

lemma product_2_53: "fl (fl (of_int (2 ^ 53)) * float_0_2) = 3602879701896397 / 2"
  by code_simp

lemma product_2_53_1: "fl (fl (of_int (2 ^ 53 + 1)) * float_0_2) = 3602879701896397 / 2"
  by code_simp

lemma product_2_53_2: "fl (fl (of_int (2 ^ 53 + 2)) * float_0_2) = 1801439850948199"
  by code_simp

lemma product_2_53_3: "fl (fl (of_int (2 ^ 53 + 3)) * float_0_2) = 7205759403792797 / 4"
  by code_simp

lemma near_limit_exact:
  assumes "0 \<le> r" and "b < 2 ^ 53 + 3"
  shows "of_int r < fl (fl (of_int b) * float_0_2) \<longleftrightarrow> 5 * r < b"
proof -
  have half: "(of_int r :: rat) < 3602879701896397 / 2 \<longleftrightarrow> 2 * r < 3602879701896397"
  proof -
    have "(of_int r :: rat) < 3602879701896397 / 2
        \<longleftrightarrow> (of_int (2 * r) :: rat) < of_int 3602879701896397"
      by (simp add: mult.commute)
    also have "\<dots> \<longleftrightarrow> 2 * r < 3602879701896397" by (simp only: of_int_less_iff)
    finally show ?thesis .
  qed
  have whole: "(of_int r :: rat) < 1801439850948199 \<longleftrightarrow> r < 1801439850948199"
  proof -
    have "(of_int r :: rat) < 1801439850948199
        \<longleftrightarrow> (of_int r :: rat) < of_int 1801439850948199"
      by simp
    also have "\<dots> \<longleftrightarrow> r < 1801439850948199" by (simp only: of_int_less_iff)
    finally show ?thesis .
  qed
  consider "b \<le> 0" | "0 < b" "b < 2 ^ 53" | "b = 2 ^ 53" | "b = 2 ^ 53 + 1" | "b = 2 ^ 53 + 2"
    using assms(2) by fastforce
  then show ?thesis
  proof cases
    case 1
    then have "(of_int b :: rat) \<le> 0" by simp
    then have "fl (of_int b) \<le> 0" by (rule fl_nonpos)
    then have "fl (of_int b) * float_0_2 \<le> 0"
      by (simp add: float_0_2_def mult_le_0_iff)
    then have "fl (fl (of_int b) * float_0_2) \<le> 0" by (rule fl_nonpos)
    moreover have "(0::rat) \<le> of_int r" using assms(1) by simp
    ultimately show ?thesis using 1 assms(1) by simp
  next
    case 2
    then have "fl (of_int b) = of_int b" by (rule fl_pos_int_exact)
    with near_limit_iff [OF assms(1) 2(2)] show ?thesis by simp
  next
    case 3
    have "2 * r < 3602879701896397 \<longleftrightarrow> 5 * r < 9007199254740992" by presburger
    with half show ?thesis unfolding 3 product_2_53 by simp
  next
    case 4
    have "2 * r < 3602879701896397 \<longleftrightarrow> 5 * r < 9007199254740993" by presburger
    with half show ?thesis unfolding 4 product_2_53_1 by simp
  next
    case 5
    have "r < 1801439850948199 \<longleftrightarrow> 5 * r < 9007199254740994" by presburger
    with whole show ?thesis unfolding 5 product_2_53_2 by simp
  qed
qed

lemma budget_status_safe:
  assumes "- overflow_limit < b" and "b < 2 ^ 53 + 3"
  shows "budget_status r b =
    Inr (if r < 0 then Exceeded else if 5 * r < b then NearLimit else OnTrack)"
proof (cases "r < 0")
  case True
  then show ?thesis by (simp add: budget_status_cases)
next
  case False
  then have r: "0 \<le> r" by simp
  have "(2::int) ^ 53 + 3 \<le> overflow_limit" by (simp add: overflow_limit_def)
  with assms have "\<bar>b\<bar> < overflow_limit" by simp
  with False near_limit_exact [OF r assms(2)] show ?thesis
    by (simp add: budget_status_cases)
qed

text \<open>
  C1, as the code has it. A negative remaining balance is Exceeded. Otherwise the
  script compares it with the float product \<open>budget * 0.2\<close>: the conversion of the budget
  raises \<open>OverflowError\<close> when its magnitude is \<open>2 ^ 1024 - 2 ^ 970\<close> or more, and below
  that the status is NearLimit exactly when remaining is less than the rounded product.
  For every budget \<open>b\<close> with \<open>- (2 ^ 1024 - 2 ^ 970) < b < 2 ^ 53 + 3\<close> the rounded
  product decides as exact arithmetic does: NearLimit when
  \<open>0 \<le> remaining < 0.2 \<times> budget\<close> and OnTrack otherwise, a remaining balance of exactly
  one fifth of the budget being OnTrack. In particular the status of (-1, 100) is
  Exceeded, of (19, 100) NearLimit, of (20, 100) OnTrack and of (0, 0) OnTrack.
\<close>

theorem budget_status_classifies:
  "(- overflow_limit < b \<and> b < 2 ^ 53 + 3 \<longrightarrow>
      budget_status r b =
        Inr (if r < 0 then Exceeded
             else if (of_int r :: rat) < 2 / 10 * of_int b then NearLimit else OnTrack))
   \<and> (- overflow_limit < b \<and> b < 2 ^ 53 + 3 \<and> 0 \<le> r \<and> b = 5 * r \<longrightarrow>
        budget_status r b = Inr OnTrack)
   \<and> (r < 0 \<longrightarrow> budget_status r b = Inr Exceeded)
   \<and> (0 \<le> r \<and> overflow_limit \<le> \<bar>b\<bar> \<longrightarrow>
        budget_status r b = Inl (OverflowError ''int too large to convert to float''))
   \<and> (0 \<le> r \<and> \<bar>b\<bar> < overflow_limit \<longrightarrow>
        budget_status r b =
          Inr (if of_int r < fl (fl (of_int b) * float_0_2) then NearLimit else OnTrack))
   \<and> budget_status (- 1) 100 = Inr Exceeded
   \<and> budget_status 19 100 = Inr NearLimit
   \<and> budget_status 20 100 = Inr OnTrack
   \<and> budget_status 0 0 = Inr OnTrack"
proof -
  have "(of_int r :: rat) < 2 / 10 * of_int b \<longleftrightarrow> (of_int (5 * r) :: rat) < of_int b"
    by (simp add: mult.commute)
  also have "\<dots> \<longleftrightarrow> 5 * r < b" by (simp only: of_int_less_iff)
  finally have e: "(of_int r :: rat) < 2 / 10 * of_int b \<longleftrightarrow> 5 * r < b" .
  have general: "- overflow_limit < b \<and> b < 2 ^ 53 + 3 \<longrightarrow>
      budget_status r b =
        Inr (if r < 0 then Exceeded
             else if (of_int r :: rat) < 2 / 10 * of_int b then NearLimit else OnTrack)"
    unfolding e by (intro impI, elim conjE) (rule budget_status_safe)
  have boundary: "- overflow_limit < b \<and> b < 2 ^ 53 + 3 \<and> 0 \<le> r \<and> b = 5 * r \<longrightarrow>
      budget_status r b = Inr OnTrack"
  proof
    assume a: "- overflow_limit < b \<and> b < 2 ^ 53 + 3 \<and> 0 \<le> r \<and> b = 5 * r"
    then have "- overflow_limit < b" "b < 2 ^ 53 + 3" by blast+
    then have "budget_status r b =
        Inr (if r < 0 then Exceeded else if 5 * r < b then NearLimit else OnTrack)"
      by (rule budget_status_safe)
    with a show "budget_status r b = Inr OnTrack" by simp
  qed
  have negative: "r < 0 \<longrightarrow> budget_status r b = Inr Exceeded"
    by (simp add: budget_status_cases)
  have overflow: "0 \<le> r \<and> overflow_limit \<le> \<bar>b\<bar> \<longrightarrow>
      budget_status r b = Inl (OverflowError ''int too large to convert to float'')"
    by (simp add: budget_status_cases)
  have rounded: "0 \<le> r \<and> \<bar>b\<bar> < overflow_limit \<longrightarrow>
      budget_status r b =
        Inr (if of_int r < fl (fl (of_int b) * float_0_2) then NearLimit else OnTrack)"
    by (simp add: budget_status_cases)
  have small: "- overflow_limit < (100::int)" "(100::int) < 2 ^ 53 + 3"
    "- overflow_limit < (0::int)" "(0::int) < 2 ^ 53 + 3"
    by (simp_all add: overflow_limit_def)
  have i1: "budget_status (- 1) 100 = Inr Exceeded"
    by (simp add: budget_status_safe [OF small(1,2)])
  have i2: "budget_status 19 100 = Inr NearLimit"
    by (simp add: budget_status_safe [OF small(1,2)])
  have i3: "budget_status 20 100 = Inr OnTrack"
    by (simp add: budget_status_safe [OF small(1,2)])
  have i4: "budget_status 0 0 = Inr OnTrack"
    by (simp add: budget_status_safe [OF small(3,4)])
  from general boundary negative overflow rounded i1 i2 i3 i4 show ?thesis by blast
qed

theorem budget_status_classifies_witness:
  "- overflow_limit < (100::int) \<and> (100::int) < 2 ^ 53 + 3 \<and> (0::int) \<le> 20
   \<and> (100::int) = 5 * 20 \<and> \<bar>100::int\<bar> < overflow_limit
   \<and> budget_status 19 100 = Inr NearLimit \<and> budget_status 20 100 = Inr OnTrack
   \<and> (- 3 :: int) < 0 \<and> budget_status (- 3) 100 = Inr Exceeded
   \<and> (0::int) \<le> 0 \<and> overflow_limit \<le> \<bar>overflow_limit\<bar>
   \<and> budget_status 0 overflow_limit
       = Inl (OverflowError ''int too large to convert to float'')"
proof -
  have h: "- overflow_limit < (100::int)" "(100::int) < 2 ^ 53 + 3" "\<bar>100::int\<bar> < overflow_limit"
    "overflow_limit \<le> \<bar>overflow_limit\<bar>"
    by (simp_all add: overflow_limit_def)
  from h budget_status_classifies [of 100 19] budget_status_classifies [of 100 20]
    budget_status_classifies [of 100 "- 3"] budget_status_classifies [of overflow_limit 0]
  show ?thesis by simp
qed

theorem budget_status_rounding_counterexample:
  "budget_status 1801439850948199 (2 ^ 53 + 3) = Inr NearLimit
   \<and> \<not> (of_int 1801439850948199 :: rat) < 2 / 10 * of_int (2 ^ 53 + 3)"
proof
  have "\<not> overflow_limit \<le> \<bar>2 ^ 53 + 3 :: int\<bar>" by (simp add: overflow_limit_def)
  moreover have "(of_int 1801439850948199 :: rat) < 7205759403792797 / 4" by simp
  ultimately show "budget_status 1801439850948199 (2 ^ 53 + 3) = Inr NearLimit"
    by (simp only: budget_status_cases product_2_53_3) simp
  show "\<not> (of_int 1801439850948199 :: rat) < 2 / 10 * of_int (2 ^ 53 + 3)" by simp
qed

section \<open>The time-scaled equivalent\<close>

lemma int_truediv_cases:
  assumes "0 < a" and "0 < d" and "d \<le> 32"
  shows "int_truediv a d =
      (if a < d * overflow_limit then Inr (fl (of_int a / of_int d))
       else Inl (OverflowError ''integer division result too large for a float''))"
    and "\<bar>fl (of_int a / of_int d) - of_int a / of_int d\<bar> \<le> of_int a / of_int d / 2 ^ 53"
    and "0 < fl (of_int a / of_int d)"
proof -
  define x :: rat where "x = of_int a / of_int d"
  have a1: "(1::rat) \<le> of_int a" using assms(1) by simp
  have d1: "(1::rat) \<le> of_int d" using assms(2) by simp
  have "(of_int d :: rat) \<le> of_int 32" using assms(3) by (simp only: of_int_le_iff)
  then have d2: "(of_int d :: rat) \<le> 32" by simp
  have pos: "0 < x" using a1 d1 by (simp add: x_def)
  have "1 / 32 \<le> 1 / (of_int d :: rat)" using d1 d2 by (simp add: field_simps)
  also have "\<dots> \<le> x" using a1 d1 by (simp add: x_def field_simps)
  finally have "2 powi (- 5) \<le> x" by simp
  with pos have "- 5 \<le> ilog2 x" by (rule ilog2_ge)
  then have norm: "- 1022 \<le> ilog2 x" by simp
  have "0 < (2::rat) powi (ilog2 x)" by simp
  also have "\<dots> \<le> fl x" using pos norm by (rule fl_ge_power)
  finally have flpos: "0 < fl x" .
  then show "0 < fl (of_int a / of_int d)" by (simp only: x_def)
  show "\<bar>fl (of_int a / of_int d) - of_int a / of_int d\<bar> \<le> of_int a / of_int d / 2 ^ 53"
    using fl_error [OF pos norm] by (simp only: x_def)
  have "2 ^ 1024 \<le> \<bar>fl x\<bar> \<longleftrightarrow> 2 ^ 1024 \<le> fl x" using flpos by simp
  also have "\<dots> \<longleftrightarrow> of_int overflow_limit \<le> x" using pos norm by (rule fl_overflow_iff)
  also have "\<dots> \<longleftrightarrow> (of_int overflow_limit :: rat) * of_int d \<le> of_int a"
    using d1 by (simp add: x_def pos_le_divide_eq)
  also have "\<dots> \<longleftrightarrow> (of_int (d * overflow_limit) :: rat) \<le> of_int a"
    by (simp add: mult.commute)
  also have "\<dots> \<longleftrightarrow> d * overflow_limit \<le> a" by (simp only: of_int_le_iff)
  finally have "2 ^ 1024 \<le> \<bar>fl x\<bar> \<longleftrightarrow> \<not> a < d * overflow_limit" by (simp add: not_less)
  then show "int_truediv a d =
      (if a < d * overflow_limit then Inr (fl (of_int a / of_int d))
       else Inl (OverflowError ''integer division result too large for a float''))"
    using assms(2) by (simp add: int_truediv_def Let_def x_def [symmetric])
qed

lemma int_truediv_exact:
  assumes "0 < a" and "0 < d" and "d dvd a" and "a div d < 2 ^ 53"
  shows "fl (of_int a / of_int d) = of_int a / of_int d"
proof -
  from assms(3) obtain k where k: "a = d * k" ..
  with assms(2) have q: "a div d = k" by simp
  from k assms(1,2) have "0 < k" by (simp add: zero_less_mult_iff)
  moreover from q assms(4) have "k < 2 ^ 53" by simp
  ultimately have "fl (of_int k) = of_int k" by (rule fl_pos_int_exact)
  moreover have "(of_int a :: rat) / of_int d = of_int k" using k assms(2) by simp
  ultimately show ?thesis by simp
qed

lemma int_truediv_zero: "d \<noteq> 0 \<Longrightarrow> int_truediv 0 d = Inr 0"
  by (simp add: int_truediv_def fl_def)

lemma format_2f_100: "format_2f 100 = ''100.00''"
  by (simp add: format_2f_def round_half_even_def zfill_def str_nat.simps digit_char_def)

lemma format_2f_1000: "format_2f 1000 = ''1000.00''"
  by (simp add: format_2f_def round_half_even_def zfill_def str_nat.simps digit_char_def)

lemma fl_5000_30: "fl (5000 / 30) = 5864062014805333 / 35184372088832"
  by code_simp

lemma round_5000_30: "round_half_even (\<bar>5864062014805333 / 35184372088832\<bar> * 100) = 16667"
  by code_simp

lemma format_2f_5000_30: "format_2f (5864062014805333 / 35184372088832) = ''166.67''"
  unfolding format_2f_def round_5000_30
  by (simp add: zfill_def str_nat.simps digit_char_def)

lemma small_budgets:
  "(3000::int) < 30 * overflow_limit" "(5000::int) < 30 * overflow_limit"
  "(6000::int) < 6 * overflow_limit"
  by (simp_all add: overflow_limit_def)

lemma daily_budget_3000: "daily_budget 3000 = Inr 100"
  using int_truediv_cases(1) [of 3000 30] int_truediv_exact [of 3000 30] small_budgets(1)
  by (simp add: daily_budget_def)

lemma monthly_equiv_6000: "monthly_equiv 6000 = Inr 1000"
  using int_truediv_cases(1) [of 6000 6] int_truediv_exact [of 6000 6] small_budgets(3)
  by (simp add: monthly_equiv_def)

lemma daily_budget_5000: "daily_budget 5000 = Inr (5864062014805333 / 35184372088832)"
  using int_truediv_cases(1) [of 5000 30] fl_5000_30 small_budgets(2)
  by (simp add: daily_budget_def)

text \<open>
  C4, as the code has it. The figure is the float quotient \<open>budget / 30\<close> in Monthly mode
  and \<open>budget / 6\<close> in Semester mode: for a positive budget whose quotient is below
  \<open>2 ^ 1024 - 2 ^ 970\<close> it is the double nearest to the quotient, positive, within the
  relative error \<open>2 ^ - 53\<close> of it and equal to it when the division is exact with a
  quotient below \<open>2 ^ 53\<close>; the info line shows it with two decimals. From that limit on
  the division raises \<open>OverflowError\<close>. The division gives 0 for the budget 0, and for a
  budget of 0 or less nothing is computed or shown. In particular the figure is 100 for
  (Monthly, 3000), shown as 100.00, and 1000 for (Semester, 6000), shown as 1000.00;
  for (Monthly, 5000) the page shows 166.67.
\<close>

theorem equivalent_figure:
  "(0 < b \<and> b < 30 * overflow_limit \<longrightarrow>
      (\<exists>y. daily_budget b = Inr y \<and> 0 < y
          \<and> \<bar>y - of_int b / 30\<bar> \<le> of_int b / 30 / 2 ^ 53
          \<and> (30 dvd b \<and> b div 30 < 2 ^ 53 \<longrightarrow> y = of_int b / 30)
          \<and> mode_insights Monthly_Budgeting b =
              Inr [St_info ([CHR 0xF0, CHR 0x9F, CHR 0x93, CHR 0x86]
                @ '' Your daily spending allowance: '' @ rupee @ format_2f y)]))
   \<and> (30 * overflow_limit \<le> b \<longrightarrow>
        daily_budget b = Inl (OverflowError ''integer division result too large for a float'')
        \<and> mode_insights Monthly_Budgeting b
            = Inl (OverflowError ''integer division result too large for a float''))
   \<and> (0 < b \<and> b < 6 * overflow_limit \<longrightarrow>
      (\<exists>y. monthly_equiv b = Inr y \<and> 0 < y
          \<and> \<bar>y - of_int b / 6\<bar> \<le> of_int b / 6 / 2 ^ 53
          \<and> (6 dvd b \<and> b div 6 < 2 ^ 53 \<longrightarrow> y = of_int b / 6)
          \<and> mode_insights Semester_Budgeting b =
              Inr [St_info ([CHR 0xF0, CHR 0x9F, CHR 0x93, CHR 0x86]
                @ '' Equivalent Monthly Budget: '' @ rupee @ format_2f y)]))
   \<and> (6 * overflow_limit \<le> b \<longrightarrow>
        monthly_equiv b = Inl (OverflowError ''integer division result too large for a float'')
        \<and> mode_insights Semester_Budgeting b
            = Inl (OverflowError ''integer division result too large for a float''))
   \<and> daily_budget 0 = Inr 0 \<and> monthly_equiv 0 = Inr 0
   \<and> (b \<le> 0 \<longrightarrow> mode_insights m b = Inr [])
   \<and> daily_budget 3000 = Inr 100 \<and> monthly_equiv 6000 = Inr 1000
   \<and> mode_insights Monthly_Budgeting 3000 =
         Inr [St_info ([CHR 0xF0, CHR 0x9F, CHR 0x93, CHR 0x86]
           @ '' Your daily spending allowance: '' @ rupee @ ''100.00'')]
   \<and> mode_insights Semester_Budgeting 6000 =
         Inr [St_info ([CHR 0xF0, CHR 0x9F, CHR 0x93, CHR 0x86]
           @ '' Equivalent Monthly Budget: '' @ rupee @ ''1000.00'')]
   \<and> mode_insights Monthly_Budgeting 5000 =
         Inr [St_info ([CHR 0xF0, CHR 0x9F, CHR 0x93, CHR 0x86]
           @ '' Your daily spending allowance: '' @ rupee @ ''166.67'')]"
proof -
  have monthly: "\<exists>y. daily_budget b = Inr y \<and> 0 < y
          \<and> \<bar>y - of_int b / 30\<bar> \<le> of_int b / 30 / 2 ^ 53
          \<and> (30 dvd b \<and> b div 30 < 2 ^ 53 \<longrightarrow> y = of_int b / 30)
          \<and> mode_insights Monthly_Budgeting b =
              Inr [St_info ([CHR 0xF0, CHR 0x9F, CHR 0x93, CHR 0x86]
                @ '' Your daily spending allowance: '' @ rupee @ format_2f y)]"
    if b: "0 < b" "b < 30 * overflow_limit"
    using b int_truediv_cases [of b 30] int_truediv_exact [of b 30]
    by (intro exI [of _ "fl (of_int b / 30)"])
      (simp add: daily_budget_def mode_insights_def daily_budget_info_def)
  have monthly_over: "daily_budget b
        = Inl (OverflowError ''integer division result too large for a float'')
      \<and> mode_insights Monthly_Budgeting b
        = Inl (OverflowError ''integer division result too large for a float'')"
    if b: "30 * overflow_limit \<le> b"
  proof -
    have "0 < overflow_limit" by (simp add: overflow_limit_def)
    with b have "0 < b" by simp
    with b int_truediv_cases(1) [of b 30] show ?thesis
      by (simp add: daily_budget_def mode_insights_def)
  qed
  have semester: "\<exists>y. monthly_equiv b = Inr y \<and> 0 < y
          \<and> \<bar>y - of_int b / 6\<bar> \<le> of_int b / 6 / 2 ^ 53
          \<and> (6 dvd b \<and> b div 6 < 2 ^ 53 \<longrightarrow> y = of_int b / 6)
          \<and> mode_insights Semester_Budgeting b =
              Inr [St_info ([CHR 0xF0, CHR 0x9F, CHR 0x93, CHR 0x86]
                @ '' Equivalent Monthly Budget: '' @ rupee @ format_2f y)]"
    if b: "0 < b" "b < 6 * overflow_limit"
    using b int_truediv_cases [of b 6] int_truediv_exact [of b 6]
    by (intro exI [of _ "fl (of_int b / 6)"])
      (simp add: monthly_equiv_def mode_insights_def monthly_equiv_info_def)
  have semester_over: "monthly_equiv b
        = Inl (OverflowError ''integer division result too large for a float'')
      \<and> mode_insights Semester_Budgeting b
        = Inl (OverflowError ''integer division result too large for a float'')"
    if b: "6 * overflow_limit \<le> b"
  proof -
    have "0 < overflow_limit" by (simp add: overflow_limit_def)
    with b have "0 < b" by simp
    with b int_truediv_cases(1) [of b 6] show ?thesis
      by (simp add: monthly_equiv_def mode_insights_def)
  qed
  have z: "daily_budget 0 = Inr 0" "monthly_equiv 0 = Inr 0"
    by (simp_all add: daily_budget_def monthly_equiv_def int_truediv_zero)
  have hidden: "b \<le> 0 \<longrightarrow> mode_insights m b = Inr []"
    by (simp add: mode_insights_def)
  have s1: "mode_insights Monthly_Budgeting 3000 =
         Inr [St_info ([CHR 0xF0, CHR 0x9F, CHR 0x93, CHR 0x86]
           @ '' Your daily spending allowance: '' @ rupee @ ''100.00'')]"
    by (simp add: mode_insights_def daily_budget_3000 daily_budget_info_def format_2f_100)
  have s2: "mode_insights Semester_Budgeting 6000 =
         Inr [St_info ([CHR 0xF0, CHR 0x9F, CHR 0x93, CHR 0x86]
           @ '' Equivalent Monthly Budget: '' @ rupee @ ''1000.00'')]"
    by (simp add: mode_insights_def monthly_equiv_6000 monthly_equiv_info_def format_2f_1000)
  have s3: "mode_insights Monthly_Budgeting 5000 =
         Inr [St_info ([CHR 0xF0, CHR 0x9F, CHR 0x93, CHR 0x86]
           @ '' Your daily spending allowance: '' @ rupee @ ''166.67'')]"
    by (simp add: mode_insights_def daily_budget_5000 daily_budget_info_def format_2f_5000_30)
  from monthly monthly_over semester semester_over z hidden daily_budget_3000
    monthly_equiv_6000 s1 s2 s3
  show ?thesis by blast
qed

theorem equivalent_figure_witness:
  "(0::int) < 3000 \<and> (3000::int) < 30 * overflow_limit \<and> (3000::int) < 6 * overflow_limit
   \<and> (30::int) dvd 3000 \<and> (3000::int) div 30 < 2 ^ 53
   \<and> (6::int) dvd 3000 \<and> (3000::int) div 6 < 2 ^ 53
   \<and> daily_budget 3000 = Inr 100 \<and> monthly_equiv 3000 = Inr 500
   \<and> (30 * overflow_limit \<le> 30 * overflow_limit)
   \<and> daily_budget (30 * overflow_limit)
       = Inl (OverflowError ''integer division result too large for a float'')
   \<and> monthly_equiv (30 * overflow_limit)
       = Inl (OverflowError ''integer division result too large for a float'')
   \<and> (0::int) \<le> 0 \<and> mode_insights Semester_Budgeting 0 = Inr []"
proof -
  have h: "(3000::int) < 30 * overflow_limit" "(3000::int) < 6 * overflow_limit"
    "6 * overflow_limit \<le> 30 * overflow_limit"
    by (simp_all add: overflow_limit_def)
  from h equivalent_figure [of 3000 Semester_Budgeting]
    equivalent_figure [of "30 * overflow_limit" Semester_Budgeting]
    equivalent_figure [of 0 Semester_Budgeting]
  show ?thesis by auto
qed

theorem equivalent_figure_rounding_counterexample:
  "daily_budget 5000 = Inr (5864062014805333 / 35184372088832)
   \<and> (5864062014805333 / 35184372088832 :: rat) \<noteq> 5000 / 30"
  by (simp add: daily_budget_5000)

section \<open>Failure of the calculation and the input boundary\<close>













section \<open>The expense log\<close>

lemma run_script_history:
  "init_history (session (run_script env w ss)) =
     (if save_button w \<and> raised (run_script env w ss) = None
      then init_history ss @
        [\<lparr>Date = today env, Mode = mode_str (radio w), Budget = budget w,
          Expenses = total_expenses (expenses w),
          Remaining = remaining (budget w) (total_expenses (expenses w)),
          Goal = goal w\<rparr>]
      else init_history ss)"
  by (simp add: run_script_def Let_def save_budget_data_def init_history_def
      split: sum.splits option.splits)

lemma run_session_prefix: "\<exists>new. init_history (run_session rs ss) = init_history ss @ new"
proof (induction rs arbitrary: ss)
  case Nil
  then show ?case by simp
next
  case (Cons r rs)
  obtain env w where r: "r = (env, w)" by (cases r)
  from Cons.IH [of "session (run_script env w ss)"] obtain new
    where "init_history (run_session rs (session (run_script env w ss)))
      = init_history (session (run_script env w ss)) @ new" ..
  then show ?case
    by (simp add: r run_script_history)
qed










end
